theory Spec2Isabelle
  imports Main
begin

section \<open>The suggestion engine: \<open>levenshtein\<close> of \<open>src/worker.js\<close>\<close>

text \<open>
  The worker computes the distance in a matrix of JavaScript arrays:
  \<^verbatim>\<open>
  function levenshtein(a, b) {
    const matrix = Array.from({ length: a.length + 1 }, () => []);
    for (let i = 0; i <= a.length; i++) matrix[i][0] = i;
    for (let j = 0; j <= b.length; j++) matrix[0][j] = j;
    for (let i = 1; i <= a.length; i++) {
      for (let j = 1; j <= b.length; j++) {
        const cost = a[i - 1] === b[j - 1] ? 0 : 1;
        matrix[i][j] = Math.min(
          matrix[i - 1][j] + 1,
          matrix[i][j - 1] + 1,
          matrix[i - 1][j - 1] + cost
        );
      }
    }
    return matrix[a.length][b.length];
  }
  \<close>
  A JavaScript string is indexed by code unit, so a string is a list of code units
  of any type \<open>'a\<close>. A slot of a row holds a number, or nothing: reading past the end
  of an array (or a hole) gives \<open>undefined\<close>, arithmetic on \<open>undefined\<close> gives
  \<open>NaN\<close>, \<open>Math.min\<close> of a \<open>NaN\<close> is \<open>NaN\<close>, and both compare \<open>false\<close> with
  \<open>\<le> 2\<close>; the two are one value \<open>None\<close> here. Indexing a row that does not
  exist (\<open>matrix[i]\<close> is \<open>undefined\<close>) throws a \<open>TypeError\<close>.

  An exception is a value: the \<open>TypeError\<close> of the language and of the platform, or
  whatever the analytics binding of the router throws (\<open>SinkError\<close>).
\<close>

datatype js_error = TypeError | SinkError string

type_synonym cell = "nat option"
type_synonym matrix = "cell list list"

text \<open>\<open>arr[j] = v\<close>: an assignment at or past the length extends the array.\<close>

definition array_store :: "cell list \<Rightarrow> nat \<Rightarrow> cell \<Rightarrow> cell list" where
  "array_store arr j v =
     (if j < length arr then arr[j := v]
      else arr @ replicate (j - length arr) None @ [v])"

text \<open>\<open>arr[j]\<close>: a read past the length is \<open>undefined\<close>.\<close>

definition array_load :: "cell list \<Rightarrow> nat \<Rightarrow> cell" where
  "array_load arr j = (if j < length arr then arr ! j else None)"

text \<open>\<open>matrix[i][j] = v\<close> and \<open>matrix[i][j]\<close>. The rows are separate arrays (the
  callback of \<open>Array.from\<close> makes a fresh one for each), so a store changes one row.\<close>

definition matrix_store :: "matrix \<Rightarrow> nat \<Rightarrow> nat \<Rightarrow> cell \<Rightarrow> js_error + matrix" where
  "matrix_store m i j v =
     (if i < length m then Inr (m[i := array_store (m ! i) j v]) else Inl TypeError)"

definition matrix_load :: "matrix \<Rightarrow> nat \<Rightarrow> nat \<Rightarrow> js_error + cell" where
  "matrix_load m i j =
     (if i < length m then Inr (array_load (m ! i) j) else Inl TypeError)"

text \<open>\<open>s[i]\<close> on a string: the code unit, or \<open>undefined\<close> past the end.\<close>

definition char_at :: "'a list \<Rightarrow> nat \<Rightarrow> 'a option" where
  "char_at s i = (if i < length s then Some (s ! i) else None)"

definition js_plus :: "cell \<Rightarrow> nat \<Rightarrow> cell" where
  "js_plus x k = (case x of None \<Rightarrow> None | Some n \<Rightarrow> Some (n + k))"

definition Math_min :: "cell \<Rightarrow> cell \<Rightarrow> cell \<Rightarrow> cell" where
  "Math_min x y z =
     (case x of None \<Rightarrow> None | Some p \<Rightarrow>
      (case y of None \<Rightarrow> None | Some q \<Rightarrow>
       (case z of None \<Rightarrow> None | Some r \<Rightarrow> Some (min p (min q r)))))"

text \<open>\<open>for (let i = 0; i <= a.length; i++) matrix[i][0] = i;\<close>\<close>

function init_column :: "'a list \<Rightarrow> nat \<Rightarrow> matrix \<Rightarrow> js_error + matrix" where
  "init_column a i m =
     (if i \<le> length a then
        (case matrix_store m i 0 (Some i) of
           Inl e \<Rightarrow> Inl e
         | Inr m' \<Rightarrow> init_column a (Suc i) m')
      else Inr m)"
  by pat_completeness auto
termination
  by (relation "measure (\<lambda>(a, i, m). Suc (length a) - i)") auto

text \<open>\<open>for (let j = 0; j <= b.length; j++) matrix[0][j] = j;\<close>\<close>

function init_row :: "'a list \<Rightarrow> nat \<Rightarrow> matrix \<Rightarrow> js_error + matrix" where
  "init_row b j m =
     (if j \<le> length b then
        (case matrix_store m 0 j (Some j) of
           Inl e \<Rightarrow> Inl e
         | Inr m' \<Rightarrow> init_row b (Suc j) m')
      else Inr m)"
  by pat_completeness auto
termination
  by (relation "measure (\<lambda>(b, j, m). Suc (length b) - j)") auto

text \<open>The inner loop \<open>for (let j = 1; j <= b.length; j++) { ... }\<close> at row \<open>i\<close>.\<close>

function inner_loop :: "'a list \<Rightarrow> 'a list \<Rightarrow> nat \<Rightarrow> nat \<Rightarrow> matrix \<Rightarrow> js_error + matrix" where
  "inner_loop a b i j m =
     (if j \<le> length b then
        (let cost = (if char_at a (i - 1) = char_at b (j - 1) then 0 else 1) in
         case matrix_load m (i - 1) j of
           Inl e \<Rightarrow> Inl e
         | Inr up \<Rightarrow>
        (case matrix_load m i (j - 1) of
           Inl e \<Rightarrow> Inl e
         | Inr left \<Rightarrow>
        (case matrix_load m (i - 1) (j - 1) of
           Inl e \<Rightarrow> Inl e
         | Inr diag \<Rightarrow>
        (case matrix_store m i j
                (Math_min (js_plus up 1) (js_plus left 1) (js_plus diag cost)) of
           Inl e \<Rightarrow> Inl e
         | Inr m' \<Rightarrow> inner_loop a b i (Suc j) m'))))
      else Inr m)"
  by pat_completeness auto
termination
  by (relation "measure (\<lambda>(a, b, i, j, m). Suc (length b) - j)") auto

text \<open>The outer loop \<open>for (let i = 1; i <= a.length; i++) { ... }\<close>.\<close>

function outer_loop :: "'a list \<Rightarrow> 'a list \<Rightarrow> nat \<Rightarrow> matrix \<Rightarrow> js_error + matrix" where
  "outer_loop a b i m =
     (if i \<le> length a then
        (case inner_loop a b i 1 m of
           Inl e \<Rightarrow> Inl e
         | Inr m' \<Rightarrow> outer_loop a b (Suc i) m')
      else Inr m)"
  by pat_completeness auto
termination
  by (relation "measure (\<lambda>(a, b, i, m). Suc (length a) - i)") auto

definition levenshtein :: "'a list \<Rightarrow> 'a list \<Rightarrow> js_error + cell" where
  "levenshtein a b =
     (let matrix = replicate (length a + 1) [] in
      case init_column a 0 matrix of
        Inl e \<Rightarrow> Inl e
      | Inr m1 \<Rightarrow>
     (case init_row b 0 m1 of
        Inl e \<Rightarrow> Inl e
      | Inr m2 \<Rightarrow>
     (case outer_loop a b 1 m2 of
        Inl e \<Rightarrow> Inl e
      | Inr m3 \<Rightarrow> matrix_load m3 (length a) (length b))))"


section \<open>The router: \<open>fetch\<close> of \<open>src/worker.js\<close>\<close>

subsection \<open>The mapping\<close>

text \<open>
  \<open>URL_MAPPINGS\<close> is an object literal that the build script writes into the worker
  (\<open>const URL_MAPPINGS = __URL_MAPPINGS__;\<close>), with string keys and string values.
  It is modelled by the list of its own properties, in the order in which
  \<open>Object.keys\<close>, \<open>Object.entries\<close> and \<open>JSON.stringify\<close> enumerate them (keys that
  are array indices first, in ascending order, then the other keys in the order of
  the literal). An object has each key once (\<open>js_object\<close>). A \<open>char\<close> of a key or
  of a value stands for one code unit of the JavaScript string; the pathname of a
  parsed URL is ASCII.
\<close>

type_synonym url_mappings = "(string \<times> string) list"

definition js_object :: "url_mappings \<Rightarrow> bool" where
  "js_object M = distinct (map fst M)"

definition Object_keys :: "url_mappings \<Rightarrow> string list" where
  "Object_keys M = map fst M"

text \<open>
  The build script (\<open>main\<close>, which follows the worker in the sources) refuses a key for
  which \<open>key.includes('/') || key.includes(' ') || key.includes('?')\<close>, and a value
  that \<open>new URL(value)\<close> does not parse. The URL parser belongs to the platform and
  is a parameter \<open>parse\<close> here: \<open>parse s\<close> is \<open>None\<close> when \<open>s\<close> is not an absolute URL,
  and else the serialised URL (\<open>new URL(s).href\<close>: the lower-case scheme and host,
  the path \<open>/\<close> where there is none, percent-encoded characters). It does not parse
  the empty string. \<open>parsed_values parse M\<close>: the parser has accepted every value of
  \<open>M\<close>.
\<close>

definition valid_key :: "string \<Rightarrow> bool" where
  "valid_key key = (\<not> (CHR ''/'' \<in> set key \<or> CHR '' '' \<in> set key \<or> CHR ''?'' \<in> set key))"

definition parsed_values :: "(string \<Rightarrow> string option) \<Rightarrow> url_mappings \<Rightarrow> bool" where
  "parsed_values parse M = list_all (\<lambda>(key, v). parse v \<noteq> None) M"

text \<open>
  A parser for the examples: it accepts \<open>https://\<close> followed by anything, and
  serialises a URL that has no path with the path \<open>/\<close>.
\<close>

definition serialise_https :: "string \<Rightarrow> string option" where
  "serialise_https s =
     (if take 8 s = ''https://'' \<and> 8 < length s
      then Some (if CHR ''/'' \<in> set (drop 8 s) then s else s @ ''/'')
      else None)"

text \<open>
  \<open>URL_MAPPINGS[shortCode]\<close> reads a property of a plain object: an own property, or
  else one inherited from \<open>Object.prototype\<close> (a built-in function, or for
  \<open>__proto__\<close> the prototype object itself), or else \<open>undefined\<close>.
\<close>

datatype js_value = Undefined | String string | Inherited string

definition Object_prototype :: "string list" where
  "Object_prototype =
     [''constructor'', ''__defineGetter__'', ''__defineSetter__'', ''hasOwnProperty'',
      ''__lookupGetter__'', ''__lookupSetter__'', ''isPrototypeOf'',
      ''propertyIsEnumerable'', ''toString'', ''valueOf'', ''__proto__'',
      ''toLocaleString'']"

definition get_property :: "url_mappings \<Rightarrow> string \<Rightarrow> js_value" where
  "get_property M key =
     (case map_of M key of
        Some v \<Rightarrow> String v
      | None \<Rightarrow> if key \<in> set Object_prototype then Inherited key else Undefined)"

text \<open>\<open>if (targetUrl)\<close>: \<open>undefined\<close> and the empty string are falsy, a non-empty string,
  a function and an object are truthy.\<close>

fun truthy :: "js_value \<Rightarrow> bool" where
  "truthy Undefined = False"
| "truthy (String s) = (s \<noteq> [])"
| "truthy (Inherited name) = True"

subsection \<open>Requests, the analytics binding, responses\<close>

text \<open>\<open>new URL(request.url)\<close>: the two parts of the parsed URL that \<open>fetch\<close> reads.\<close>

record request_url =
  origin :: string
  pathname :: string

text \<open>
  \<open>env.ANALYTICS.writeDataPoint({'blobs': [targetUrl], 'doubles': [1]})\<close>: the
  binding is a collaborator of the worker. A call returns (\<open>None\<close>) or throws
  (\<open>Some e\<close>).
\<close>

record data_point =
  blobs :: "js_value list"
  doubles :: "nat list"

record env =
  writeDataPoint :: "data_point \<Rightarrow> js_error option"

definition silent_sink :: "data_point \<Rightarrow> js_error option" where
  "silent_sink p = None"

definition failing_sink :: "data_point \<Rightarrow> js_error option" where
  "failing_sink p = Some (SinkError ''analytics unavailable'')"

datatype json = JString string | JNumber nat | JObject "(string \<times> json) list"

text \<open>
  The body of a response. A template literal of the source is a constructor whose
  arguments are the interpolated expressions, in the order of the source:
  the home page (\<open>url.origin\<close>, \<open>urlCount\<close>, the entries that \<open>urlList\<close> renders, the
  date) and the not-found page (\<open>shortCode\<close>, \<open>availableUrls\<close>, \<open>url.origin\<close>).
  \<open>Json_text v n\<close> is \<open>JSON.stringify(v, null, n)\<close>, with \<open>n = 0\<close> for the call with one
  argument. The \<open>headers\<close> of a response are the ones that the source passes;
  \<open>status\<close> is 200 where the source passes none.
\<close>

datatype body =
    Home_page string nat "(string \<times> string) list" string
  | Json_text json nat
  | Plain_text string
  | Not_found_page string string string
  | No_body

record response =
  status :: nat
  headers :: "(string \<times> string) list"
  body :: body

text \<open>
  \<open>Response.redirect(url, status)\<close> parses its argument as an absolute URL and throws
  a \<open>TypeError\<close> when that fails; the \<open>Location\<close> header of the response is the
  serialised URL, not the text of the argument. The text of a built-in function or
  object, and \<open>undefined\<close>, are not absolute URLs.
\<close>

definition Response_redirect ::
  "(string \<Rightarrow> string option) \<Rightarrow> js_value \<Rightarrow> nat \<Rightarrow> js_error + response" where
  "Response_redirect parse url st =
     (case url of
        String u \<Rightarrow>
          (case parse u of
             Some href \<Rightarrow> Inr \<lparr>status = st, headers = [(''Location'', href)], body = No_body\<rparr>
           | None \<Rightarrow> Inl TypeError)
      | Undefined \<Rightarrow> Inl TypeError
      | Inherited name \<Rightarrow> Inl TypeError)"

subsection \<open>Suggestions\<close>

text \<open>
  \<^verbatim>\<open>
  const availableUrls = Object.keys(URL_MAPPINGS)
    .filter(key => levenshtein(key, shortCode) <= 2).slice(0, 5).join(', ');
  \<close>
  \<open>filter\<close> calls the callback on each key in order; an exception of the callback
  ends it.
\<close>

definition at_most_2 :: "cell \<Rightarrow> bool" where
  "at_most_2 d = (case d of None \<Rightarrow> False | Some n \<Rightarrow> n \<le> 2)"

fun filter_keys :: "'a list \<Rightarrow> 'a list list \<Rightarrow> js_error + 'a list list" where
  "filter_keys shortCode [] = Inr []"
| "filter_keys shortCode (key # keys) =
     (case levenshtein key shortCode of
        Inl e \<Rightarrow> Inl e
      | Inr d \<Rightarrow>
     (case filter_keys shortCode keys of
        Inl e \<Rightarrow> Inl e
      | Inr rest \<Rightarrow> Inr (if at_most_2 d then key # rest else rest)))"

fun join :: "'a list \<Rightarrow> 'a list list \<Rightarrow> 'a list" where
  "join sep [] = []"
| "join sep [x] = x"
| "join sep (x # y # ys) = x @ sep @ join sep (y # ys)"

definition availableUrls :: "url_mappings \<Rightarrow> string \<Rightarrow> js_error + string" where
  "availableUrls M shortCode =
     (case filter_keys shortCode (Object_keys M) of
        Inl e \<Rightarrow> Inl e
      | Inr similar \<Rightarrow> Inr (join '', '' (take 5 similar)))"

text \<open>
  The repository holds a second copy of the worker, whose file name is not known. It
  has no analytics call and no distance filter; its not-found page lists the first
  five keys:
  \<^verbatim>\<open>
  const availableUrls = Object.keys(URL_MAPPINGS).slice(0, 5).join(', ');
  \<close>
  The build script embeds the mapping into \<open>src/worker.js\<close>, the file modelled here.
\<close>

definition availableUrls_listing :: "url_mappings \<Rightarrow> string" where
  "availableUrls_listing M = join '', '' (take 5 (Object_keys M))"

subsection \<open>\<open>fetch\<close>\<close>

text \<open>
  \<open>fetch(request, env, ctx)\<close>, with the platform's URL parser, the mapping and the
  clock (\<open>now\<close> is what \<open>new Date().toISOString()\<close> returns) as arguments. \<open>console.log\<close> has no effect on
  the response and is left out. A result \<open>Inl e\<close> is an exception that leaves the
  handler: the worker sends no response of its own.
\<close>

definition fetch ::
  "(string \<Rightarrow> string option) \<Rightarrow> url_mappings \<Rightarrow> string \<Rightarrow> request_url \<Rightarrow> env \<Rightarrow> js_error + response" where
  "fetch parse URL_MAPPINGS now url env =
     (let path = pathname url in
      if path = ''/'' then
        Inr \<lparr>status = 200,
             headers = [(''Content-Type'', ''text/html''),
                        (''Cache-Control'', ''public, max-age=3600'')],
             body = Home_page (origin url) (length (Object_keys URL_MAPPINGS))
                      URL_MAPPINGS now\<rparr>
      else if path = ''/api/urls'' then
        Inr \<lparr>status = 200,
             headers = [(''Content-Type'', ''application/json''),
                        (''Access-Control-Allow-Origin'', ''*''),
                        (''Cache-Control'', ''public, max-age=3600'')],
             body = Json_text
                      (JObject [(''urls'', JObject (map (\<lambda>(key, v). (key, JString v)) URL_MAPPINGS)),
                                (''count'', JNumber (length (Object_keys URL_MAPPINGS))),
                                (''buildTime'', JString now)]) 2\<rparr>
      else if path = ''/health'' then
        Inr \<lparr>status = 200,
             headers = [(''Content-Type'', ''application/json'')],
             body = Json_text
                      (JObject [(''status'', JString ''ok''),
                                (''urlCount'', JNumber (length (Object_keys URL_MAPPINGS))),
                                (''buildTime'', JString now)]) 0\<rparr>
      else
        (let shortCode = drop 1 path in
         if shortCode = [] then
           Inr \<lparr>status = 404, headers = [], body = Plain_text ''Not Found''\<rparr>
         else
           (let targetUrl = get_property URL_MAPPINGS shortCode in
            if truthy targetUrl then
              (case writeDataPoint env \<lparr>blobs = [targetUrl], doubles = [1]\<rparr> of
                 Some e \<Rightarrow> Inl e
               | None \<Rightarrow> Response_redirect parse targetUrl 301)
            else
              (case availableUrls URL_MAPPINGS shortCode of
                 Inl e \<Rightarrow> Inl e
               | Inr suggestions \<Rightarrow>
                   Inr \<lparr>status = 404,
                        headers = [(''Content-Type'', ''text/html''),
                                   (''Cache-Control'', ''public, max-age=300'')],
                        body = Not_found_page shortCode suggestions (origin url)\<rparr>))))"


section \<open>The specification's words\<close>

text \<open>
  The edit distance of the specification: the least number of single-character
  insertions, deletions and substitutions that transform one string into another.
  \<open>edit_step a b\<close> is one such operation, at any position of \<open>a\<close>;
  \<open>transforms n a b\<close> is a sequence of \<open>n\<close> of them from \<open>a\<close> to \<open>b\<close>.
\<close>

inductive edit_step :: "'a list \<Rightarrow> 'a list \<Rightarrow> bool" where
  insertion: "edit_step (xs @ ys) (xs @ c # ys)"
| deletion: "edit_step (xs @ c # ys) (xs @ ys)"
| substitution: "c \<noteq> d \<Longrightarrow> edit_step (xs @ c # ys) (xs @ d # ys)"

inductive transforms :: "nat \<Rightarrow> 'a list \<Rightarrow> 'a list \<Rightarrow> bool" where
  no_edit: "transforms 0 a a"
| one_more: "edit_step a b \<Longrightarrow> transforms n b c \<Longrightarrow> transforms (Suc n) a c"




text \<open>The three reserved routes.\<close>

definition reserved :: "string list" where
  "reserved = [''/'', ''/api/urls'', ''/health'']"

text \<open>A name that the mapping does not hold and \<open>Object.prototype\<close> does.\<close>

definition inherited_only :: "url_mappings \<Rightarrow> string \<Rightarrow> bool" where
  "inherited_only M code = (map_of M code = None \<and> code \<in> set Object_prototype)"

section \<open>Auxiliary definitions of the proofs\<close>

text \<open>The value that the loops leave in \<open>matrix[i][j]\<close>.\<close>

fun cell_value :: "'a list \<Rightarrow> 'a list \<Rightarrow> nat \<Rightarrow> nat \<Rightarrow> nat" where
  "cell_value a b 0 j = j"
| "cell_value a b (Suc i) 0 = Suc i"
| "cell_value a b (Suc i) (Suc j) =
     min (cell_value a b i (Suc j) + 1)
       (min (cell_value a b (Suc i) j + 1)
          (cell_value a b i j + (if a ! i = b ! j then 0 else 1)))"


text \<open>The matrix when rows \<open>0..i-1\<close> are complete and row \<open>i\<close> holds columns \<open>0..j-1\<close>;
  the rows below hold their first column.\<close>

definition filled :: "'a list \<Rightarrow> 'a list \<Rightarrow> nat \<Rightarrow> nat \<Rightarrow> matrix" where
  "filled a b i j =
     map (\<lambda>k. if k < i then map (\<lambda>l. Some (cell_value a b k l)) [0..<Suc (length b)]
              else if k = i then map (\<lambda>l. Some (cell_value a b k l)) [0..<j]
              else [Some k])
       [0..<Suc (length a)]"


text \<open>The matrix while the second loop fills row \<open>0\<close>.\<close>

definition row0_state :: "'a list \<Rightarrow> nat \<Rightarrow> matrix" where
  "row0_state a j =
     map (\<lambda>k. if k = 0 then map Some [0..<j] else [Some k]) [0..<Suc (length a)]"


text \<open>The distance by recursion on the two strings.\<close>

fun edit_rec :: "'a list \<Rightarrow> 'a list \<Rightarrow> nat" where
  "edit_rec [] ys = length ys"
| "edit_rec (x # xs) [] = Suc (length xs)"
| "edit_rec (x # xs) (y # ys) =
     min (edit_rec xs (y # ys) + 1)
       (min (edit_rec (x # xs) ys + 1)
          (edit_rec xs ys + (if x = y then 0 else 1)))"


text \<open>\<open>u\<close> is at most one further from every string than \<open>v\<close> is.\<close>

definition within_one :: "'a list \<Rightarrow> 'a list \<Rightarrow> bool" where
  "within_one u v = (\<forall>y. edit_rec u y \<le> Suc (edit_rec v y))"


section \<open>The loops of \<open>levenshtein\<close>\<close>

lemma cell_value_col0: "cell_value a b i 0 = i"
  by (cases i) simp_all

declare init_column.simps [simp del] init_row.simps [simp del]
  inner_loop.simps [simp del] outer_loop.simps [simp del]

lemma init_column_run:
  "i \<le> Suc (length a) \<Longrightarrow>
   init_column a i (map (\<lambda>k. if k < i then [Some k] else []) [0..<Suc (length a)])
     = Inr (map (\<lambda>k. [Some k]) [0..<Suc (length a)])"
proof (induction "Suc (length a) - i" arbitrary: i)
  case 0
  then have "i = Suc (length a)" by simp
  then show ?case
    by (subst init_column.simps) (simp cong: map_cong)
next
  case (Suc n)
  then have le: "i \<le> length a" by simp
  have step: "matrix_store (map (\<lambda>k. if k < i then [Some k] else []) [0..<Suc (length a)]) i 0 (Some i)
    = Inr (map (\<lambda>k. if k < Suc i then [Some k] else []) [0..<Suc (length a)])"
    using le unfolding matrix_store_def array_store_def
    by (auto intro!: nth_equalityI simp: nth_list_update less_Suc_eq simp del: upt_Suc)
  from Suc have "n = Suc (length a) - Suc i" "Suc i \<le> Suc (length a)" by simp_all
  from Suc.hyps(1)[OF this] show ?case
    using le by (subst init_column.simps) (simp add: step del: upt_Suc)
qed


lemma row0_state_1: "row0_state a (Suc 0) = map (\<lambda>k. [Some k]) [0..<Suc (length a)]"
  unfolding row0_state_def by (auto intro!: nth_equalityI simp del: upt_Suc)

lemma row0_store:
  "0 < j \<Longrightarrow> matrix_store (row0_state a j) 0 j (Some j) = Inr (row0_state a (Suc j))"
  unfolding matrix_store_def array_store_def row0_state_def
  by (auto intro!: nth_equalityI simp: nth_list_update nth_append simp del: upt_Suc)

lemma row0_store_first:
  "matrix_store (row0_state a (Suc 0)) 0 0 (Some 0) = Inr (row0_state a (Suc 0))"
  unfolding matrix_store_def array_store_def row0_state_def
  by (auto intro!: nth_equalityI simp: nth_list_update simp del: upt_Suc)

lemma init_row_run:
  "0 < j \<Longrightarrow> j \<le> Suc (length b) \<Longrightarrow>
   init_row b j (row0_state a j) = Inr (row0_state a (Suc (length b)))"
proof (induction "Suc (length b) - j" arbitrary: j)
  case 0
  then have "j = Suc (length b)" by simp
  then show ?case by (subst init_row.simps) simp
next
  case (Suc n)
  then have le: "j \<le> length b" by simp
  from Suc have "n = Suc (length b) - Suc j" "0 < Suc j" "Suc j \<le> Suc (length b)" by simp_all
  from Suc.hyps(1)[OF this] show ?case
    using le Suc.prems(1) by (subst init_row.simps) (simp add: row0_store)
qed

lemma init_row_from_0:
  "init_row b 0 (row0_state a (Suc 0)) = Inr (row0_state a (Suc (length b)))"
  using init_row_run [of "Suc 0" b a]
  by (subst init_row.simps) (simp add: row0_store_first)

lemma row0_state_filled: "row0_state a (Suc (length b)) = filled a b (Suc 0) (Suc 0)"
  unfolding row0_state_def filled_def
  by (auto intro!: nth_equalityI simp: cell_value_col0 simp del: upt_Suc)


lemma filled_load_up:
  "0 < i \<Longrightarrow> i \<le> length a \<Longrightarrow> j \<le> length b \<Longrightarrow>
   matrix_load (filled a b i j') (i - 1) j = Inr (Some (cell_value a b (i - 1) j))"
  unfolding matrix_load_def array_load_def filled_def
  by (simp del: upt_Suc)

lemma filled_load_left:
  "i \<le> length a \<Longrightarrow> j < j' \<Longrightarrow>
   matrix_load (filled a b i j') i j = Inr (Some (cell_value a b i j))"
  unfolding matrix_load_def array_load_def filled_def
  by (simp del: upt_Suc)

lemma filled_store:
  "i \<le> length a \<Longrightarrow>
   matrix_store (filled a b i j) i j (Some (cell_value a b i j)) = Inr (filled a b i (Suc j))"
  unfolding matrix_store_def array_store_def filled_def
  by (auto intro!: nth_equalityI simp: nth_list_update nth_append less_Suc_eq simp del: upt_Suc)

lemma filled_next_row: "filled a b i (Suc (length b)) = filled a b (Suc i) (Suc 0)"
  unfolding filled_def
  by (auto intro!: nth_equalityI simp: cell_value_col0 less_Suc_eq simp del: upt_Suc)

lemma inner_loop_run:
  "0 < i \<Longrightarrow> i \<le> length a \<Longrightarrow> 0 < j \<Longrightarrow> j \<le> Suc (length b) \<Longrightarrow>
   inner_loop a b i j (filled a b i j) = Inr (filled a b i (Suc (length b)))"
proof (induction "Suc (length b) - j" arbitrary: j)
  case 0
  then have "j = Suc (length b)" by simp
  then show ?case by (subst inner_loop.simps) simp
next
  case (Suc n)
  then have le: "j \<le> length b" by simp
  obtain i' j' where ij: "i = Suc i'" "j = Suc j'"
    using Suc.prems by (cases i; cases j) auto
  have chars: "(char_at a (i - Suc 0) = char_at b (j - Suc 0)) = (a ! i' = b ! j')"
    using Suc.prems le ij by (simp add: char_at_def)
  have up: "matrix_load (filled a b i j) (i - Suc 0) j = Inr (Some (cell_value a b i' j))"
    using filled_load_up [of i a j b j] Suc.prems le ij by simp
  have left: "matrix_load (filled a b i j) i (j - Suc 0) = Inr (Some (cell_value a b i j'))"
    using filled_load_left [of i a j' j b] Suc.prems ij by simp
  have diag: "matrix_load (filled a b i j) (i - Suc 0) (j - Suc 0) = Inr (Some (cell_value a b i' j'))"
    using filled_load_up [of i a j' b j] Suc.prems le ij by simp
  have val: "Math_min (js_plus (Some (cell_value a b i' j)) (Suc 0)) (js_plus (Some (cell_value a b i j')) (Suc 0))
       (js_plus (Some (cell_value a b i' j')) c)
     = Some (cell_value a b i j)" if "c = (if a ! i' = b ! j' then 0 else Suc 0)" for c
    unfolding ij that by (simp add: Math_min_def js_plus_def)
  from Suc have "n = Suc (length b) - Suc j" "0 < Suc j" "Suc j \<le> Suc (length b)" by simp_all
  from Suc.hyps(1)[OF this(1) Suc.prems(1,2) this(2,3)] show ?case
    using le Suc.prems(2)
    by (subst inner_loop.simps) (simp add: up left diag chars val filled_store Let_def if_distrib [of "js_plus _"] cong: if_cong)
qed

lemma outer_loop_run:
  "0 < i \<Longrightarrow> i \<le> Suc (length a) \<Longrightarrow>
   outer_loop a b i (filled a b i (Suc 0)) = Inr (filled a b (Suc (length a)) (Suc 0))"
proof (induction "Suc (length a) - i" arbitrary: i)
  case 0
  then have "i = Suc (length a)" by simp
  then show ?case by (subst outer_loop.simps) simp
next
  case (Suc n)
  then have le: "i \<le> length a" by simp
  have row: "inner_loop a b i (Suc 0) (filled a b i (Suc 0)) = Inr (filled a b (Suc i) (Suc 0))"
    using inner_loop_run [of i a "Suc 0" b] Suc.prems le by (simp add: filled_next_row)
  from Suc have "n = Suc (length a) - Suc i" "0 < Suc i" "Suc i \<le> Suc (length a)" by simp_all
  from Suc.hyps(1)[OF this] show ?case
    using le by (subst outer_loop.simps) (simp add: row)
qed

lemma filled_result:
  "matrix_load (filled a b (Suc (length a)) (Suc 0)) (length a) (length b)
     = Inr (Some (cell_value a b (length a) (length b)))"
  unfolding matrix_load_def array_load_def filled_def
  by (simp del: upt_Suc)

lemma levenshtein_cell_value:
  "levenshtein a b = Inr (Some (cell_value a b (length a) (length b)))"
proof -
  have c: "init_column a 0 (replicate (length a + 1) []) = Inr (row0_state a (Suc 0))"
    using init_column_run [of 0 a] by (simp add: row0_state_1 map_replicate_const del: upt_Suc replicate_Suc)
  have r: "init_row b 0 (row0_state a (Suc 0)) = Inr (filled a b (Suc 0) (Suc 0))"
    by (simp add: init_row_from_0 row0_state_filled)
  have l: "outer_loop a b 1 (filled a b (Suc 0) (Suc 0)) = Inr (filled a b (Suc (length a)) (Suc 0))"
    using outer_loop_run [of "Suc 0" a b] by simp
  show ?thesis
    unfolding levenshtein_def Let_def by (simp only: c r l sum.case filled_result)
qed

section \<open>The recursion is the least number of edits\<close>

lemma edit_rec_Nil2: "edit_rec xs [] = length xs"
  by (cases xs) simp_all

lemma cell_value_edit_rec:
  "i \<le> length a \<Longrightarrow> j \<le> length b \<Longrightarrow>
   cell_value a b i j = edit_rec (rev (take i a)) (rev (take j b))"
proof (induction a b i j rule: cell_value.induct)
  case (1 a b j)
  then show ?case by simp
next
  case (2 a b i)
  then show ?case by (simp add: edit_rec_Nil2)
next
  case (3 a b i j)
  then show ?case by (simp add: take_Suc_conv_app_nth)
qed

lemma edit_step_Cons: "edit_step a b \<Longrightarrow> edit_step (z # a) (z # b)"
proof (induction rule: edit_step.induct)
  case (insertion xs ys c)
  show ?case using edit_step.insertion [of "z # xs" ys c] by simp
next
  case (deletion xs c ys)
  show ?case using edit_step.deletion [of "z # xs" c ys] by simp
next
  case (substitution c d xs ys)
  then show ?case using edit_step.substitution [of c d "z # xs" ys] by simp
qed

lemma edit_step_rev: "edit_step a b \<Longrightarrow> edit_step (rev a) (rev b)"
proof (induction rule: edit_step.induct)
  case (insertion xs ys c)
  show ?case using edit_step.insertion [of "rev ys" "rev xs" c] by simp
next
  case (deletion xs c ys)
  show ?case using edit_step.deletion [of "rev ys" c "rev xs"] by simp
next
  case (substitution c d xs ys)
  then show ?case using edit_step.substitution [of c d "rev ys" "rev xs"] by simp
qed

lemma transforms_Cons: "transforms n a b \<Longrightarrow> transforms n (z # a) (z # b)"
  by (induction rule: transforms.induct) (auto intro: transforms.intros edit_step_Cons)

lemma transforms_rev: "transforms n a b \<Longrightarrow> transforms n (rev a) (rev b)"
  by (induction rule: transforms.induct) (auto intro: transforms.intros edit_step_rev)

lemma insert_front: "edit_step ys (c # ys)"
  using edit_step.insertion [of "[]" ys c] by simp

lemma delete_front: "edit_step (c # ys) ys"
  using edit_step.deletion [of "[]" c ys] by simp

lemma substitute_front: "c \<noteq> d \<Longrightarrow> edit_step (c # ys) (d # ys)"
  using edit_step.substitution [of c d "[]" ys] by simp

lemma transforms_insert_all: "transforms (length ys) [] ys"
proof (induction ys)
  case Nil
  show ?case by (simp add: transforms.no_edit)
next
  case (Cons y ys)
  have "transforms (Suc (length ys)) [] (y # ys)"
    using insert_front [of "[]" y] transforms_Cons [OF Cons.IH, of y]
    by (rule transforms.one_more)
  then show ?case by simp
qed

lemma transforms_delete_all: "transforms (length xs) xs []"
proof (induction xs)
  case Nil
  show ?case by (simp add: transforms.no_edit)
next
  case (Cons x xs)
  have "transforms (Suc (length xs)) (x # xs) []"
    using delete_front [of x xs] Cons.IH by (rule transforms.one_more)
  then show ?case by simp
qed

lemma transforms_edit_rec: "transforms (edit_rec xs ys) xs ys"
proof (induction xs ys rule: edit_rec.induct)
  case (1 ys)
  show ?case by (simp add: transforms_insert_all)
next
  case (2 x xs)
  show ?case using transforms_delete_all [of "x # xs"] by simp
next
  case (3 x xs y ys)
  let ?del = "edit_rec xs (y # ys) + 1"
  let ?ins = "edit_rec (x # xs) ys + 1"
  let ?sub = "edit_rec xs ys + (if x = y then 0 else 1)"
  have d: "transforms ?del (x # xs) (y # ys)"
    using transforms.one_more [OF delete_front "3.IH"(1)] by simp
  have i: "transforms ?ins (x # xs) (y # ys)"
    using transforms.one_more [OF insert_front transforms_Cons [OF "3.IH"(2)]] by simp
  have s: "transforms ?sub (x # xs) (y # ys)"
  proof (cases "x = y")
    case True
    then show ?thesis using transforms_Cons [OF "3.IH"(3), of y] by simp
  next
    case False
    then show ?thesis
      using transforms.one_more [OF substitute_front transforms_Cons [OF "3.IH"(3)], of x y] by simp
  qed
  have "edit_rec (x # xs) (y # ys) = ?del \<or> edit_rec (x # xs) (y # ys) = ?ins
      \<or> edit_rec (x # xs) (y # ys) = ?sub"
    by (simp add: min_def)
  with d i s show ?case by metis
qed
lemma edit_rec_same: "edit_rec xs xs = 0"
  by (induction xs) simp_all

lemma edit_rec_Cons2_le: "edit_rec x (b # bs) \<le> Suc (edit_rec x bs)"
  by (cases x) simp_all

lemma edit_rec_Cons1_le: "edit_rec (c # cs) y \<le> Suc (edit_rec cs y)"
  by (cases y) (simp_all add: edit_rec_Nil2)

lemma edit_rec_drop1_le: "edit_rec cs y \<le> Suc (edit_rec (c # cs) y)"
proof (induction y)
  case Nil
  show ?case by (simp add: edit_rec_Nil2)
next
  case (Cons b bs)
  define L where "L = edit_rec cs (b # bs)"
  have "L \<le> Suc (edit_rec cs bs)" unfolding L_def by (rule edit_rec_Cons2_le)
  with Cons have "L \<le> Suc (edit_rec (c # cs) (b # bs))"
    by (simp add: min_def L_def [symmetric])
  then show ?case unfolding L_def .
qed

lemma edit_rec_subst_le: "edit_rec (c # cs) y \<le> Suc (edit_rec (d # cs) y)"
proof (induction y)
  case Nil
  show ?case by simp
next
  case (Cons b bs)
  define L where "L = edit_rec (c # cs) (b # bs)"
  have "L \<le> edit_rec cs (b # bs) + 1" "L \<le> edit_rec (c # cs) bs + 1" "L \<le> edit_rec cs bs + 1"
    unfolding L_def by (simp_all add: min_def)
  with Cons have "L \<le> Suc (edit_rec (d # cs) (b # bs))" by (simp add: min_def)
  then show ?case unfolding L_def .
qed

lemma within_one_Cons:
  assumes "within_one u v"
  shows "within_one (z # u) (z # v)"
  unfolding within_one_def
proof
  fix y
  show "edit_rec (z # u) y \<le> Suc (edit_rec (z # v) y)"
  proof (induction y)
    case Nil
    from assms have "edit_rec u [] \<le> Suc (edit_rec v [])" unfolding within_one_def by blast
    then show ?case by (simp add: edit_rec_Nil2)
  next
    case (Cons b bs)
    from assms have h1: "edit_rec u (b # bs) \<le> Suc (edit_rec v (b # bs))"
      and h2: "edit_rec u bs \<le> Suc (edit_rec v bs)"
      unfolding within_one_def by blast+
    define L where "L = edit_rec (z # u) (b # bs)"
    have "L \<le> edit_rec u (b # bs) + 1" "L \<le> edit_rec (z # u) bs + 1"
      "L \<le> edit_rec u bs + (if z = b then 0 else 1)"
      unfolding L_def by (simp_all add: min_def)
    with Cons h1 h2 have "L \<le> Suc (edit_rec (z # v) (b # bs))" by (simp add: min_def split: if_splits)
    then show ?case unfolding L_def .
  qed
qed

lemma within_one_append: "within_one u v \<Longrightarrow> within_one (xs @ u) (xs @ v)"
  by (induction xs) (simp_all add: within_one_Cons)

lemma edit_step_within_one: "edit_step x x' \<Longrightarrow> within_one x x'"
proof (induction rule: edit_step.induct)
  case (insertion xs ys c)
  have "within_one ys (c # ys)" unfolding within_one_def by (simp add: edit_rec_drop1_le)
  then show ?case by (rule within_one_append)
next
  case (deletion xs c ys)
  have "within_one (c # ys) ys" unfolding within_one_def by (simp add: edit_rec_Cons1_le)
  then show ?case by (rule within_one_append)
next
  case (substitution c d xs ys)
  have "within_one (c # ys) (d # ys)" unfolding within_one_def by (simp add: edit_rec_subst_le)
  then show ?case by (rule within_one_append)
qed

lemma edit_rec_le_transforms: "transforms n x y \<Longrightarrow> edit_rec x y \<le> n"
proof (induction rule: transforms.induct)
  case (no_edit a)
  show ?case by (simp add: edit_rec_same)
next
  case (one_more a b n c)
  from edit_step_within_one [OF one_more.hyps(1)]
  have "edit_rec a c \<le> Suc (edit_rec b c)" unfolding within_one_def by blast
  with one_more.IH show ?case by simp
qed


lemma levenshtein_edit_rec: "levenshtein a b = Inr (Some (edit_rec (rev a) (rev b)))"
  using cell_value_edit_rec [of "length a" a "length b" b]
  by (simp add: levenshtein_cell_value)

section \<open>The branches of \<open>fetch\<close>\<close>

lemma filter_keys_edit_rec:
  "filter_keys q ks = Inr (filter (\<lambda>key. edit_rec (rev key) (rev q) \<le> 2) ks)"
  by (induction ks) (simp_all add: levenshtein_edit_rec at_most_2_def)

lemma availableUrls_edit_rec:
  "availableUrls M q =
     Inr (join '', '' (take 5 (filter (\<lambda>key. edit_rec (rev key) (rev q) \<le> 2) (Object_keys M))))"
  by (simp add: availableUrls_def filter_keys_edit_rec)

text \<open>The build script refuses the key \<open>"api/urls"\<close> and accepts the key \<open>"health"\<close>.\<close>

lemma reserved_names_as_keys: "\<not> valid_key ''api/urls'' \<and> valid_key ''health''"
  by (simp add: valid_key_def)

lemma parsed_values_lookup:
  "parsed_values parse M \<Longrightarrow> map_of M k = Some v \<Longrightarrow> \<exists>href. parse v = Some href"
  by (auto simp: parsed_values_def list_all_iff dest: map_of_SomeD)

lemma fetch_hit:
  assumes "map_of M code = Some target" and "parse target = Some href" and "parse [] = None"
    and "code \<noteq> []" and "code \<noteq> ''health''" and "code \<noteq> ''api/urls''"
    and "pathname url = CHR ''/'' # code"
  shows "fetch parse M now url env =
     (case writeDataPoint env \<lparr>blobs = [String target], doubles = [1]\<rparr> of
        Some e \<Rightarrow> Inl e
      | None \<Rightarrow> Inr \<lparr>status = 301, headers = [(''Location'', href)], body = No_body\<rparr>)"
proof -
  from assms(2,3) have "target \<noteq> []" by auto
  with assms show ?thesis
    by (simp add: fetch_def Let_def get_property_def Response_redirect_def
        cong: option.case_cong)
qed

lemma fetch_miss:
  assumes "\<not> truthy (get_property M code)"
    and "code \<noteq> []" and "code \<noteq> ''health''" and "code \<noteq> ''api/urls''"
    and "pathname url = CHR ''/'' # code"
  shows "fetch parse M now url env =
     Inr \<lparr>status = 404,
          headers = [(''Content-Type'', ''text/html''), (''Cache-Control'', ''public, max-age=300'')],
          body = Not_found_page code
                   (join '', '' (take 5 (filter (\<lambda>key. edit_rec (rev key) (rev code) \<le> 2)
                      (Object_keys M))))
                   (origin url)\<rparr>"
  using assms
  by (simp add: fetch_def Let_def availableUrls_edit_rec)

text \<open>
  A request for a name of \<open>Object.prototype\<close> that is not a key: the lookup finds the
  inherited property, the branch of the redirect is taken, and an exception leaves
  \<open>fetch\<close>, whatever the analytics binding does.
\<close>

lemma fetch_inherited:
  assumes "inherited_only M code" and "pathname url = CHR ''/'' # code"
  shows "fetch parse M now url env =
     (case writeDataPoint env \<lparr>blobs = [Inherited code], doubles = [1]\<rparr> of
        Some e \<Rightarrow> Inl e
      | None \<Rightarrow> Inl TypeError)"
proof -
  have "code \<noteq> []" "code \<noteq> ''health''" "code \<noteq> ''api/urls''"
    using assms(1) by (auto simp: inherited_only_def Object_prototype_def)
  then show ?thesis using assms
    by (simp add: fetch_def Let_def get_property_def Response_redirect_def inherited_only_def
        cong: option.case_cong)
qed

text \<open>
  A miss on any other name: status 404, and the page embeds, joined by \<open>", "\<close>, the
  first five of the keys at distance at most 2 from the requested code, in the order
  of \<open>Object.keys\<close>.
\<close>

lemma suggestions_on_miss:
  assumes "map_of M k = None" and "k \<notin> set Object_prototype"
    and "k \<noteq> []" and "k \<noteq> ''health''" and "k \<noteq> ''api/urls''"
  shows "fetch parse M now \<lparr>origin = org, pathname = CHR ''/'' # k\<rparr> env =
     Inr \<lparr>status = 404,
          headers = [(''Content-Type'', ''text/html''), (''Cache-Control'', ''public, max-age=300'')],
          body = Not_found_page k
                   (join '', '' (take 5 (filter (\<lambda>key. edit_rec (rev key) (rev k) \<le> 2)
                      (Object_keys M))))
                   org\<rparr>"
  using assms
    fetch_miss [of M k "\<lparr>origin = org, pathname = CHR ''/'' # k\<rparr>" parse now env]
  by (simp add: get_property_def)

lemma suggestions_distinct:
  "js_object M \<Longrightarrow>
   distinct (take 5 (filter (\<lambda>key. edit_rec (rev key) (rev k) \<le> 2) (Object_keys M)))"
  by (simp add: js_object_def Object_keys_def)

lemma edit_rec_least: "edit_rec (rev a) (rev b) = (LEAST n. transforms n a b)"
proof (rule sym, rule Least_equality)
  show "transforms (edit_rec (rev a) (rev b)) a b"
    using transforms_rev [OF transforms_edit_rec [of "rev a" "rev b"]] by simp
next
  fix n
  assume "transforms n a b"
  then show "edit_rec (rev a) (rev b) \<le> n"
    using edit_rec_le_transforms [OF transforms_rev] by blast
qed

lemma listing_ignores_distance:
  "availableUrls_listing [(''xyz'', ''https://example.com'')] = ''xyz''
   \<and> availableUrls [(''xyz'', ''https://example.com'')] ''abc'' = Inr []"
  by (simp add: availableUrls_listing_def availableUrls_edit_rec Object_keys_def)



lemma fetch_status_cases:
  assumes "parsed_values parse M" and "parse [] = None"
    and "\<not> inherited_only M (drop 1 (pathname url))"
    and "\<forall>p. writeDataPoint env p = None"
  shows "\<exists>r. fetch parse M now url env = Inr r
     \<and> status r = (if pathname url \<in> set reserved then 200
                   else if drop 1 (pathname url) \<noteq> [] \<and> drop 1 (pathname url) \<in> set (Object_keys M)
                   then 301 else 404)"
proof (cases "pathname url \<in> set reserved")
  case True
  then show ?thesis by (auto simp: fetch_def reserved_def)
next
  case nres: False
  show ?thesis
  proof (cases "drop 1 (pathname url) = []")
    case True
    with nres show ?thesis by (simp add: fetch_def reserved_def)
  next
    case code: False
    show ?thesis
    proof (cases "map_of M (drop 1 (pathname url))")
      case None
      then have nk: "drop 1 (pathname url) \<notin> set (Object_keys M)"
        by (simp add: map_of_eq_None_iff Object_keys_def)
      from None assms(3) have "get_property M (drop 1 (pathname url)) = Undefined"
        by (simp add: get_property_def inherited_only_def)
      with nres code nk show ?thesis
        by (simp add: fetch_def Let_def reserved_def availableUrls_edit_rec)
    next
      case (Some v)
      then have k: "drop 1 (pathname url) \<in> set (Object_keys M)"
        by (auto simp: Object_keys_def dest: map_of_SomeD intro: rev_image_eqI)
      from assms(1) Some obtain href where pv: "parse v = Some href"
        using parsed_values_lookup by blast
      with assms(2) have "v \<noteq> []" by auto
      with Some nres code k pv assms(4) show ?thesis
        by (simp add: fetch_def Let_def reserved_def get_property_def Response_redirect_def)
    qed
  qed
qed

section \<open>The claims\<close>

text \<open>
  C1 (as amended). For every mapping \<open>M\<close> and every key \<open>k\<close> of \<open>M\<close> other than the
  empty key, \<open>"health"\<close> and \<open>"api/urls"\<close> (the paths of the reserved routes, which are
  answered first), \<open>fetch\<close> on the path \<open>"/" + k\<close> returns a 301 redirect to \<open>M[k]\<close>: the
  \<open>Location\<close> is the URL \<open>M[k]\<close> as the URL parser serialises it (the build has parsed
  every value with that parser), when the call of the analytics binding returns.
\<close>

theorem redirect_on_hit:
  assumes "map_of M k = Some target" and "parse target = Some href" and "parse [] = None"
    and "k \<noteq> []" and "k \<noteq> ''health''" and "k \<noteq> ''api/urls''"
    and "writeDataPoint env \<lparr>blobs = [String target], doubles = [1]\<rparr> = None"
  shows "fetch parse M now \<lparr>origin = org, pathname = CHR ''/'' # k\<rparr> env =
     Inr \<lparr>status = 301, headers = [(''Location'', href)], body = No_body\<rparr>"
  using assms
    fetch_hit [of M k target parse href "\<lparr>origin = org, pathname = CHR ''/'' # k\<rparr>" now env]
  by simp

text \<open>
  C1 at the key \<open>"gh"\<close> of a mapping with one entry, whose value \<open>https://github.com\<close>
  is serialised with the path \<open>/\<close>.
\<close>

theorem redirect_on_hit_witness:
  "map_of [(''gh'', ''https://github.com'')] ''gh'' = Some ''https://github.com''
   \<and> serialise_https ''https://github.com'' = Some ''https://github.com/''
   \<and> serialise_https [] = None
   \<and> writeDataPoint \<lparr>writeDataPoint = silent_sink\<rparr>
         \<lparr>blobs = [String ''https://github.com''], doubles = [1]\<rparr> = None
   \<and> fetch serialise_https [(''gh'', ''https://github.com'')] ''2025-01-01T00:00:00.000Z''
         \<lparr>origin = ''https://tiny.example'', pathname = CHR ''/'' # ''gh''\<rparr>
         \<lparr>writeDataPoint = silent_sink\<rparr>
       = Inr \<lparr>status = 301, headers = [(''Location'', ''https://github.com/'')], body = No_body\<rparr>"
  using redirect_on_hit [of "[(''gh'', ''https://github.com'')]" "''gh''" "''https://github.com''" serialise_https
      "''https://github.com/''" "\<lparr>writeDataPoint = silent_sink\<rparr>" "''2025-01-01T00:00:00.000Z''" "''https://tiny.example''"]
  by (simp add: serialise_https_def silent_sink_def)

text \<open>
  C1 as stated fails for the key \<open>"health"\<close>: the path \<open>"/health"\<close> is the health check,
  which \<open>fetch\<close> answers with status 200 before it looks at the mapping.
\<close>

theorem redirect_on_hit_counterexample:
  "map_of [(''health'', ''https://example.com'')] ''health'' = Some ''https://example.com''
   \<and> fetch serialise_https [(''health'', ''https://example.com'')] ''2025-01-01T00:00:00.000Z''
         \<lparr>origin = ''https://tiny.example'', pathname = CHR ''/'' # ''health''\<rparr>
         \<lparr>writeDataPoint = silent_sink\<rparr>
       = Inr \<lparr>status = 200, headers = [(''Content-Type'', ''application/json'')],
              body = Json_text (JObject [(''status'', JString ''ok''), (''urlCount'', JNumber 1),
                       (''buildTime'', JString ''2025-01-01T00:00:00.000Z'')]) 0\<rparr>"
  by (simp add: fetch_def Object_keys_def)

text \<open>
  C2 at the short-code \<open>"constructor"\<close>, which is not a key of the mapping: the lookup
  \<open>URL_MAPPINGS[shortCode]\<close> finds \<open>Object.prototype.constructor\<close>, and \<open>fetch\<close> ends
  with a \<open>TypeError\<close> of \<open>Response.redirect\<close> instead of the 404 page with its
  suggestions. (For a short-code that is neither a key nor a name of
  \<open>Object.prototype\<close>, \<open>suggestions_on_miss\<close> gives the page that C2 describes.)
\<close>

theorem inherited_name_throws:
  "map_of [(''gh'', ''https://github.com'')] ''constructor'' = None
   \<and> fetch serialise_https [(''gh'', ''https://github.com'')] ''2025-01-01T00:00:00.000Z''
         \<lparr>origin = ''https://tiny.example'', pathname = ''/constructor''\<rparr>
         \<lparr>writeDataPoint = silent_sink\<rparr>
       = Inl TypeError"
  by (simp add: fetch_def Let_def get_property_def Object_prototype_def silent_sink_def
      Response_redirect_def)

text \<open>
  C3 (as amended). On a redirect hit the call of the analytics binding is not
  guarded: when it throws, the exception leaves \<open>fetch\<close> and no response is returned;
  when it returns, \<open>fetch\<close> returns the 301 redirect (to the serialised \<open>M[k]\<close>).
\<close>

theorem analytics_failure_propagates:
  assumes "map_of M k = Some target" and "parse target = Some href" and "parse [] = None"
    and "k \<noteq> []" and "k \<noteq> ''health''" and "k \<noteq> ''api/urls''"
  shows "fetch parse M now \<lparr>origin = org, pathname = CHR ''/'' # k\<rparr> env =
     (case writeDataPoint env \<lparr>blobs = [String target], doubles = [1]\<rparr> of
        Some e \<Rightarrow> Inl e
      | None \<Rightarrow> Inr \<lparr>status = 301, headers = [(''Location'', href)], body = No_body\<rparr>)"
  using assms
    fetch_hit [of M k target parse href "\<lparr>origin = org, pathname = CHR ''/'' # k\<rparr>" now env]
  by simp

text \<open>C3 at the key \<open>"docs"\<close>, with a binding that throws.\<close>

theorem analytics_failure_propagates_witness:
  "map_of [(''docs'', ''https://docs.example.org/start'')] ''docs''
       = Some ''https://docs.example.org/start''
   \<and> serialise_https ''https://docs.example.org/start'' = Some ''https://docs.example.org/start''
   \<and> serialise_https [] = None
   \<and> fetch serialise_https [(''docs'', ''https://docs.example.org/start'')] ''2026-02-02T08:30:00.000Z''
         \<lparr>origin = ''https://tiny.example'', pathname = CHR ''/'' # ''docs''\<rparr>
         \<lparr>writeDataPoint = failing_sink\<rparr>
       = Inl (SinkError ''analytics unavailable'')"
  using analytics_failure_propagates [of
      "[(''docs'', ''https://docs.example.org/start'')]"
      "''docs''" "''https://docs.example.org/start''" serialise_https
      "''https://docs.example.org/start''" "''2026-02-02T08:30:00.000Z''"
      "''https://tiny.example''" "\<lparr>writeDataPoint = failing_sink\<rparr>"]
  by (simp add: serialise_https_def failing_sink_def)

text \<open>
  C3 as stated fails: with a binding that throws, \<open>fetch\<close> on the key \<open>"gh"\<close> ends with
  the binding's exception, not with the 301 redirect.
\<close>

theorem analytics_failure_counterexample:
  "fetch serialise_https [(''gh'', ''https://github.com'')] ''2025-01-01T00:00:00.000Z''
         \<lparr>origin = ''https://tiny.example'', pathname = ''/gh''\<rparr>
         \<lparr>writeDataPoint = failing_sink\<rparr>
       = Inl (SinkError ''analytics unavailable'')"
  by (simp add: fetch_def Let_def get_property_def failing_sink_def)

text \<open>
  C4. For every pair of strings \<open>a\<close> and \<open>b\<close>, \<open>levenshtein\<close> returns a number \<open>d\<close>
  (no exception, no \<open>NaN\<close>) that is the classic edit distance: \<open>d\<close> single-character
  insertions, deletions or substitutions transform \<open>a\<close> into \<open>b\<close>, and no sequence
  of fewer does.
\<close>

theorem levenshtein_is_edit_distance:
  "\<exists>d. levenshtein a b = Inr (Some d) \<and> transforms d a b \<and> (\<forall>n. transforms n a b \<longrightarrow> d \<le> n)"
proof -
  let ?d = "edit_rec (rev a) (rev b)"
  have run: "levenshtein a b = Inr (Some ?d)"
    using cell_value_edit_rec [of "length a" a "length b" b]
    by (simp add: levenshtein_cell_value)
  have reach: "transforms ?d a b"
    using transforms_rev [OF transforms_edit_rec [of "rev a" "rev b"]] by simp
  have least: "?d \<le> n" if "transforms n a b" for n
    using edit_rec_le_transforms [OF transforms_rev [OF that]] .
  from run reach least show ?thesis by blast
qed

text \<open>C4 at \<open>"ab"\<close> and \<open>"abc"\<close>: one insertion transforms the first into the second, and
  the function returns 1.\<close>

theorem levenshtein_is_edit_distance_witness:
  "transforms 1 ''ab'' ''abc'' \<and> levenshtein ''ab'' ''abc'' = Inr (Some 1)"
proof -
  have t: "transforms 1 ''ab'' ''abc''"
    using transforms.one_more
      [OF edit_step.insertion [of "''ab''" "[]" "CHR ''c''"] transforms.no_edit]
    by simp
  from levenshtein_is_edit_distance [of "''ab''" "''abc''"]
  obtain d where d: "levenshtein ''ab'' ''abc'' = Inr (Some d)"
    "transforms d ''ab'' ''abc''" "\<forall>n. transforms n ''ab'' ''abc'' \<longrightarrow> d \<le> n"
    by blast
  from d(3) t have "d \<le> 1" by blast
  moreover have "d \<noteq> 0"
  proof
    assume "d = 0"
    with d(2) have "transforms 0 ''ab'' ''abc''" by simp
    then show False by (auto elim: transforms.cases)
  qed
  ultimately have "d = 1" by simp
  with d(1) t show ?thesis by simp
qed

text \<open>
  C5. For every mapping \<open>M\<close> (an object: each key once), \<open>fetch\<close> on \<open>"/api/urls"\<close>
  returns status 200 with the headers \<open>Content-Type: application/json\<close>,
  \<open>Access-Control-Allow-Origin: *\<close> and \<open>Cache-Control: public, max-age=3600\<close>, and the
  JSON text of \<open>{urls, count, buildTime}\<close>, where \<open>urls\<close> is \<open>M\<close> and \<open>count\<close> is the
  number of keys of \<open>M\<close>: the cardinality of its set of keys, which is also the
  number of its entries.
\<close>

theorem api_urls_response:
  assumes "js_object M"
  shows "fetch parse M now \<lparr>origin = org, pathname = ''/api/urls''\<rparr> env =
     Inr \<lparr>status = 200,
          headers = [(''Content-Type'', ''application/json''),
                     (''Access-Control-Allow-Origin'', ''*''),
                     (''Cache-Control'', ''public, max-age=3600'')],
          body = Json_text
                   (JObject [(''urls'', JObject (map (\<lambda>(key, v). (key, JString v)) M)),
                             (''count'', JNumber (card (fst ` set M))),
                             (''buildTime'', JString now)]) 2\<rparr>
     \<and> card (fst ` set M) = length M"
proof -
  have "card (fst ` set M) = length (map fst M)"
    using assms distinct_card [of "map fst M"] by (simp add: js_object_def)
  then show ?thesis by (simp add: fetch_def Object_keys_def)
qed

text \<open>C5 at a mapping with two keys: \<open>count\<close> is 2.\<close>

theorem api_urls_response_witness:
  "js_object [(''gh'', ''https://github.com''), (''docs'', ''https://docs.example.org/start'')]
   \<and> fetch serialise_https
        [(''gh'', ''https://github.com''), (''docs'', ''https://docs.example.org/start'')] ''2025-01-01T00:00:00.000Z''
        \<lparr>origin = ''https://tiny.example'', pathname = ''/api/urls''\<rparr> \<lparr>writeDataPoint = silent_sink\<rparr> =
     Inr \<lparr>status = 200,
          headers = [(''Content-Type'', ''application/json''),
                     (''Access-Control-Allow-Origin'', ''*''),
                     (''Cache-Control'', ''public, max-age=3600'')],
          body = Json_text
                   (JObject [(''urls'', JObject [(''gh'', JString ''https://github.com''),
                                (''docs'', JString ''https://docs.example.org/start'')]),
                             (''count'', JNumber 2),
                             (''buildTime'', JString ''2025-01-01T00:00:00.000Z'')]) 2\<rparr>"
proof -
  let ?M = "[(''gh'', ''https://github.com''), (''docs'', ''https://docs.example.org/start'')]"
  have obj: "js_object ?M" by (simp add: js_object_def)
  from api_urls_response [OF obj, of serialise_https "''2025-01-01T00:00:00.000Z''" "''https://tiny.example''"
      "\<lparr>writeDataPoint = silent_sink\<rparr>"]
  show ?thesis using obj by simp
qed

text \<open>
  C6. For every mapping \<open>M\<close> (an object: each key once), \<open>fetch\<close> on \<open>"/health"\<close> returns
  status 200 with a JSON body whose \<open>status\<close> is \<open>"ok"\<close> and whose \<open>urlCount\<close> is the
  number of keys of \<open>M\<close> (the cardinality of its set of keys, which is also the number
  of its entries); for the empty mapping \<open>urlCount\<close> is 0.
\<close>

theorem health_response:
  assumes "js_object M"
  shows "fetch parse M now \<lparr>origin = org, pathname = ''/health''\<rparr> env =
     Inr \<lparr>status = 200,
          headers = [(''Content-Type'', ''application/json'')],
          body = Json_text
                   (JObject [(''status'', JString ''ok''),
                             (''urlCount'', JNumber (card (fst ` set M))),
                             (''buildTime'', JString now)]) 0\<rparr>
   \<and> card (fst ` set M) = length M
   \<and> fetch parse [] now \<lparr>origin = org, pathname = ''/health''\<rparr> env =
     Inr \<lparr>status = 200,
          headers = [(''Content-Type'', ''application/json'')],
          body = Json_text
                   (JObject [(''status'', JString ''ok''),
                             (''urlCount'', JNumber 0),
                             (''buildTime'', JString now)]) 0\<rparr>"
proof -
  have "card (fst ` set M) = length (map fst M)"
    using assms distinct_card [of "map fst M"] by (simp add: js_object_def)
  then show ?thesis by (simp add: fetch_def Object_keys_def)
qed

text \<open>C6 at a mapping with three keys: \<open>urlCount\<close> is 3.\<close>

theorem health_response_witness:
  "js_object [(''gh'', ''https://github.com''), (''docs'', ''https://docs.example.org/start''),
      (''health'', ''https://status.example.com'')]
   \<and> fetch serialise_https
        [(''gh'', ''https://github.com''), (''docs'', ''https://docs.example.org/start''),
         (''health'', ''https://status.example.com'')] ''2026-02-02T08:30:00.000Z''
        \<lparr>origin = ''https://tiny.example'', pathname = ''/health''\<rparr> \<lparr>writeDataPoint = failing_sink\<rparr> =
     Inr \<lparr>status = 200,
          headers = [(''Content-Type'', ''application/json'')],
          body = Json_text
                   (JObject [(''status'', JString ''ok''),
                             (''urlCount'', JNumber 3),
                             (''buildTime'', JString ''2026-02-02T08:30:00.000Z'')]) 0\<rparr>"
proof -
  let ?M = "[(''gh'', ''https://github.com''), (''docs'', ''https://docs.example.org/start''),
      (''health'', ''https://status.example.com'')]"
  have obj: "js_object ?M" by (simp add: js_object_def)
  from health_response [OF obj, of serialise_https "''2026-02-02T08:30:00.000Z''" "''https://tiny.example''"
      "\<lparr>writeDataPoint = failing_sink\<rparr>"]
  show ?thesis using obj by simp
qed

text \<open>
  C7. For every path other than \<open>"/"\<close>, \<open>"/api/urls"\<close> and \<open>"/health"\<close> whose short-code
  (the path without its first character) is empty, \<open>fetch\<close> returns status 404 with
  the plain body \<open>Not Found\<close> and no header of its own. (The pathname of a parsed
  URL starts with \<open>"/"\<close>, so such a path is the empty string or one other character.)
\<close>

theorem empty_code_not_found:
  assumes "pathname url \<noteq> ''/''" and "pathname url \<noteq> ''/api/urls''"
    and "pathname url \<noteq> ''/health''" and "drop 1 (pathname url) = []"
  shows "fetch parse M now url env =
     Inr \<lparr>status = 404, headers = [], body = Plain_text ''Not Found''\<rparr>"
  using assms by (simp add: fetch_def)

text \<open>C7 at the empty path.\<close>

theorem empty_code_not_found_witness:
  "pathname \<lparr>origin = ''https://tiny.example'', pathname = []\<rparr> \<noteq> ''/''
   \<and> drop 1 (pathname \<lparr>origin = ''https://tiny.example'', pathname = []\<rparr>) = []
   \<and> fetch serialise_https [(''gh'', ''https://github.com'')] ''2025-01-01T00:00:00.000Z''
        \<lparr>origin = ''https://tiny.example'', pathname = []\<rparr> \<lparr>writeDataPoint = silent_sink\<rparr>
      = Inr \<lparr>status = 404, headers = [], body = Plain_text ''Not Found''\<rparr>"
  using empty_code_not_found [of "\<lparr>origin = ''https://tiny.example'', pathname = []\<rparr>"
      serialise_https "[(''gh'', ''https://github.com'')]" "''2025-01-01T00:00:00.000Z''" "\<lparr>writeDataPoint = silent_sink\<rparr>"]
  by simp

text \<open>
  C8. For the empty query, \<open>levenshtein\<close> of a candidate and the query (in either
  order) is the candidate's length, and the filter of the suggestions keeps exactly
  the candidates of length at most 2, in their order. (\<open>fetch\<close> itself answers an
  empty short-code before it computes suggestions.)
\<close>

theorem empty_query_distance:
  "levenshtein c [] = Inr (Some (length c))
   \<and> levenshtein [] c = Inr (Some (length c))
   \<and> filter_keys [] candidates = Inr (filter (\<lambda>c. length c \<le> 2) candidates)"
  by (simp add: levenshtein_edit_rec filter_keys_edit_rec edit_rec_Nil2)




text \<open>
  C10 (as amended). For every mapping whose values the URL parser accepts and every
  request path, when the analytics binding does not throw and the short-code is not
  a name that only \<open>Object.prototype\<close> holds, \<open>fetch\<close> returns a response whose status
  is 200, 301 or 404: 200 exactly on the three reserved routes (also when the
  short-code is a key), 301 exactly when the path is not reserved and the short-code
  is not empty and is a key of the mapping, and 404 in every remaining case.
\<close>

theorem status_classes:
  assumes "parsed_values parse M" and "parse [] = None"
    and "\<not> inherited_only M (drop 1 (pathname url))"
    and "\<forall>p. writeDataPoint env p = None"
  shows "\<exists>r. fetch parse M now url env = Inr r
     \<and> status r \<in> {200, 301, 404}
     \<and> (status r = 200 \<longleftrightarrow> pathname url \<in> set reserved)
     \<and> (status r = 301 \<longleftrightarrow> pathname url \<notin> set reserved \<and> drop 1 (pathname url) \<noteq> []
           \<and> drop 1 (pathname url) \<in> set (Object_keys M))
     \<and> (status r = 404 \<longleftrightarrow> pathname url \<notin> set reserved
           \<and> (drop 1 (pathname url) = [] \<or> drop 1 (pathname url) \<notin> set (Object_keys M)))"
proof -
  from fetch_status_cases [OF assms, of now] obtain r where
    r: "fetch parse M now url env = Inr r"
    and s: "status r = (if pathname url \<in> set reserved then 200
                   else if drop 1 (pathname url) \<noteq> [] \<and> drop 1 (pathname url) \<in> set (Object_keys M)
                   then 301 else 404)"
    by blast
  from s have "status r \<in> {200, 301, 404}
     \<and> (status r = 200 \<longleftrightarrow> pathname url \<in> set reserved)
     \<and> (status r = 301 \<longleftrightarrow> pathname url \<notin> set reserved \<and> drop 1 (pathname url) \<noteq> []
           \<and> drop 1 (pathname url) \<in> set (Object_keys M))
     \<and> (status r = 404 \<longleftrightarrow> pathname url \<notin> set reserved
           \<and> (drop 1 (pathname url) = [] \<or> drop 1 (pathname url) \<notin> set (Object_keys M)))"
    by (simp split: if_splits)
  with r show ?thesis by blast
qed

text \<open>C10 at the key \<open>"gh"\<close>: status 301.\<close>

theorem status_classes_witness:
  "parsed_values serialise_https [(''gh'', ''https://github.com'')] \<and> serialise_https [] = None
   \<and> \<not> inherited_only [(''gh'', ''https://github.com'')] ''gh''
   \<and> (\<forall>p. writeDataPoint \<lparr>writeDataPoint = silent_sink\<rparr> p = None)
   \<and> ''gh'' \<in> set (Object_keys [(''gh'', ''https://github.com'')])
   \<and> map_sum id status
        (fetch serialise_https [(''gh'', ''https://github.com'')] ''2025-01-01T00:00:00.000Z''
           \<lparr>origin = ''https://tiny.example'', pathname = ''/gh''\<rparr> \<lparr>writeDataPoint = silent_sink\<rparr>)
      = Inr 301"
proof -
  let ?M = "[(''gh'', ''https://github.com'')]"
  let ?url = "\<lparr>origin = ''https://tiny.example'', pathname = ''/gh''\<rparr>"
  let ?env = "\<lparr>writeDataPoint = silent_sink\<rparr>"
  have a: "parsed_values serialise_https ?M" by (simp add: parsed_values_def serialise_https_def)
  have e: "serialise_https [] = None" by (simp add: serialise_https_def)
  have b: "\<not> inherited_only ?M (drop 1 (pathname ?url))" by (simp add: inherited_only_def)
  have c: "\<forall>p. writeDataPoint ?env p = None" by (simp add: silent_sink_def)
  have k: "''gh'' \<in> set (Object_keys ?M)" by (simp add: Object_keys_def)
  have nr: "pathname ?url \<notin> set reserved" by (simp add: reserved_def)
  from status_classes [OF a e b c, of "''2025-01-01T00:00:00.000Z''"] k nr
  have "map_sum id status (fetch serialise_https ?M ''2025-01-01T00:00:00.000Z'' ?url ?env) = Inr 301"
    by auto
  with a e b c k show ?thesis by simp
qed

text \<open>
  C10 as stated fails on the path \<open>"/health"\<close> of a mapping with the key \<open>"health"\<close>: the
  short-code is a key of the mapping, and the status is 200, not 301.
\<close>

theorem status_classes_counterexample:
  "drop 1 ''/health'' \<in> set (Object_keys [(''health'', ''https://status.example.com'')])
   \<and> map_sum id status
        (fetch serialise_https [(''health'', ''https://status.example.com'')] ''2025-01-01T00:00:00.000Z''
           \<lparr>origin = ''https://tiny.example'', pathname = ''/health''\<rparr>
           \<lparr>writeDataPoint = silent_sink\<rparr>)
      = Inr 200"
  by (simp add: fetch_def Object_keys_def)

end
